theory Spec2Isabelle
  imports Complex_Main
begin

section \<open>Path parameters and decimal numerals\<close>

text \<open>
  The handlers read their target id with \<^verbatim>\<open>strconv.ParseUint(c.Param(...), 10, 32)\<close>.
  In base 10 the argument must be a non-empty run of the digits 0 to 9 (no sign, no
  underscore) whose value fits the bit size; anything else is an error, which the handlers
  answer with 400.
\<close>

definition digit_val :: "char \<Rightarrow> nat option" where
  "digit_val c =
     (let n = (of_char c :: nat) in if 48 \<le> n \<and> n \<le> 57 then Some (n - 48) else None)"

fun parse_digits :: "nat \<Rightarrow> string \<Rightarrow> nat option" where
  "parse_digits acc [] = Some acc"
| "parse_digits acc (c # cs) =
     (case digit_val c of None \<Rightarrow> None | Some d \<Rightarrow> parse_digits (acc * 10 + d) cs)"

definition ParseUint :: "string \<Rightarrow> nat \<Rightarrow> nat option" where
  "ParseUint s bitSize =
     (if s = [] then None
      else case parse_digits 0 s of
             None \<Rightarrow> None
           | Some n \<Rightarrow> if n < 2 ^ bitSize then Some n else None)"

text \<open>\<^verbatim>\<open>strconv.FormatUint(n, 10)\<close>, also the way \<^verbatim>\<open>encoding/json\<close> prints a uint.\<close>

fun FormatUint :: "nat \<Rightarrow> string" where
  "FormatUint n =
     (if n < 10 then [''0123456789'' ! n]
      else FormatUint (n div 10) @ [''0123456789'' ! (n mod 10)])"

declare FormatUint.simps [simp del]

section \<open>The persistent store (internal/models)\<close>

text \<open>
  Each model struct is a record of the columns the matching flow reads or writes; the
  timestamps \<^verbatim>\<open>CreatedAt\<close>/\<^verbatim>\<open>UpdatedAt\<close> and the preloaded relations play no part
  in it and are left out. A \<^verbatim>\<open>gorm.DeletedAt\<close> column is kept (as an optional time):
  gorm adds \<^verbatim>\<open>deleted_at IS NULL\<close> to every query on such a model.
\<close>

record User =
  User_ID :: nat
  User_IsActive :: bool
  User_DeletedAt :: "nat option"

record Like =
  Like_ID :: nat
  LikerID :: nat
  LikedID :: nat

record Dislike =
  Dislike_ID :: nat
  DislikerID :: nat
  DislikedID :: nat

record BlockedUser =
  BlockedUser_ID :: nat
  BlockerID :: nat
  BlockedID :: nat

record Match =
  Match_ID :: nat
  User1ID :: nat
  User2ID :: nat
  Match_IsActive :: bool
  Match_DeletedAt :: "nat option"

record Conversation =
  Conversation_ID :: nat
  MatchID :: nat
  Conversation_IsActive :: bool
  Conversation_DeletedAt :: "nat option"

record Notification =
  Notification_ID :: nat
  Notification_UserID :: nat
  Notification_Type :: string
  Title :: string
  Body :: string
  Data :: string

text \<open>
  A table is the list of its rows in primary-key order; the primary key of a new row comes
  from the table's sequence, so \<^verbatim>\<open>Create\<close> appends.
\<close>

record DB =
  users :: "User list"
  likes :: "Like list"
  dislikes :: "Dislike list"
  blocked_users :: "BlockedUser list"
  matches :: "Match list"
  conversations :: "Conversation list"
  notifications :: "Notification list"
  likes_seq :: nat
  dislikes_seq :: nat
  matches_seq :: nat
  conversations_seq :: nat
  notifications_seq :: nat

text \<open>The Redis hash \<^verbatim>\<open>match:<id>\<close> written by \<^verbatim>\<open>cacheMatchData\<close>.\<close>

record MatchData =
  cached_id :: nat
  cached_user1_id :: nat
  cached_user2_id :: nat

record MatchHandler =
  db :: DB
  redis :: "string \<Rightarrow> MatchData option"

text \<open>
  A write to the database can fail; the handlers branch on the error of some writes. Which
  writes fail is a parameter of the model: \<open>fails op\<close> says that the write \<open>op\<close> returns
  an error (and then stores nothing). The writes whose error the source ignores
  (notifications, the Redis cache) are taken to succeed, and so are the queries.
\<close>

datatype db_op =
  CreateLike | CreateDislike | CreateMatch | CreateConversation | SaveMatch | SaveConversation

text \<open>\<^verbatim>\<open>Where(...).First(&row)\<close>: the first row, in primary-key order, that satisfies
  the condition; \<open>None\<close> is \<^verbatim>\<open>ErrRecordNotFound\<close>.\<close>

definition First :: "('a \<Rightarrow> bool) \<Rightarrow> 'a list \<Rightarrow> 'a option" where
  "First cond rows = find cond rows"

definition Create_Like :: "(db_op \<Rightarrow> bool) \<Rightarrow> nat \<Rightarrow> nat \<Rightarrow> DB \<Rightarrow> (Like \<times> DB) option" where
  "Create_Like fails liker liked d =
     (if fails CreateLike then None
      else let row = \<lparr>Like_ID = likes_seq d, LikerID = liker, LikedID = liked\<rparr>
           in Some (row, d\<lparr>likes := likes d @ [row], likes_seq := Suc (likes_seq d)\<rparr>))"

definition Create_Dislike :: "(db_op \<Rightarrow> bool) \<Rightarrow> nat \<Rightarrow> nat \<Rightarrow> DB \<Rightarrow> (Dislike \<times> DB) option" where
  "Create_Dislike fails disliker disliked d =
     (if fails CreateDislike then None
      else let row = \<lparr>Dislike_ID = dislikes_seq d, DislikerID = disliker, DislikedID = disliked\<rparr>
           in Some (row, d\<lparr>dislikes := dislikes d @ [row], dislikes_seq := Suc (dislikes_seq d)\<rparr>))"

definition Create_Match :: "(db_op \<Rightarrow> bool) \<Rightarrow> nat \<Rightarrow> nat \<Rightarrow> DB \<Rightarrow> (Match \<times> DB) option" where
  "Create_Match fails user1 user2 d =
     (if fails CreateMatch then None
      else let row = \<lparr>Match_ID = matches_seq d, User1ID = user1, User2ID = user2,
                        Match_IsActive = True, Match_DeletedAt = None\<rparr>
           in Some (row, d\<lparr>matches := matches d @ [row], matches_seq := Suc (matches_seq d)\<rparr>))"

definition Create_Conversation :: "(db_op \<Rightarrow> bool) \<Rightarrow> nat \<Rightarrow> DB \<Rightarrow> (Conversation \<times> DB) option" where
  "Create_Conversation fails match_id d =
     (if fails CreateConversation then None
      else let row = \<lparr>Conversation_ID = conversations_seq d, MatchID = match_id,
                        Conversation_IsActive = True, Conversation_DeletedAt = None\<rparr>
           in Some (row, d\<lparr>conversations := conversations d @ [row],
                            conversations_seq := Suc (conversations_seq d)\<rparr>))"

text \<open>\<^verbatim>\<open>Save(&row)\<close> writes every column of the row with that primary key.\<close>

definition Save_Match :: "Match \<Rightarrow> DB \<Rightarrow> DB" where
  "Save_Match m d =
     d\<lparr>matches := map (\<lambda>r. if Match_ID r = Match_ID m then m else r) (matches d)\<rparr>"

definition Save_Conversation :: "Conversation \<Rightarrow> DB \<Rightarrow> DB" where
  "Save_Conversation c d =
     d\<lparr>conversations :=
          map (\<lambda>r. if Conversation_ID r = Conversation_ID c then c else r) (conversations d)\<rparr>"

section \<open>The match handler (LikeUser, DislikeUser, Unmatch)\<close>

datatype Response =
    StatusBadRequest
  | StatusNotFound
  | StatusConflict
  | StatusForbidden
  | StatusInternalServerError
  | StatusOK
  | StatusCreated nat User

definition createMatchNotification :: "nat \<Rightarrow> nat \<Rightarrow> nat \<Rightarrow> DB \<Rightarrow> DB" where
  \<open>createMatchNotification userID otherUserID matchID d =
     d\<lparr>notifications := notifications d @
          [\<lparr>Notification_ID = notifications_seq d, Notification_UserID = userID,
            Notification_Type = ''match'', Title = ''New Match!'',
            Body = ''You have a new match! Start chatting now.'',
            Data = ''{"match_id": '' @ FormatUint matchID @ ''}''\<rparr>],
        notifications_seq := Suc (notifications_seq d)\<rparr>\<close>

definition cacheMatchData :: "nat \<Rightarrow> nat \<Rightarrow> nat \<Rightarrow> (string \<Rightarrow> MatchData option) \<Rightarrow> (string \<Rightarrow> MatchData option)" where
  "cacheMatchData matchID user1ID user2ID r =
     r(''match:'' @ FormatUint matchID \<mapsto>
         \<lparr>cached_id = matchID, cached_user1_id = user1ID, cached_user2_id = user2ID\<rparr>)"

text \<open>
  \<open>LikeUser fails h userID param\<close>: \<open>userID\<close> is the authenticated caller (the
  \<^verbatim>\<open>user_id\<close> the auth middleware put in the context), \<open>param\<close> the raw
  \<^verbatim>\<open>:user_id\<close> path parameter. The result is the response and the handler's state after
  the call; the branches are the source's, in its order.
\<close>

definition LikeUser :: "(db_op \<Rightarrow> bool) \<Rightarrow> MatchHandler \<Rightarrow> nat \<Rightarrow> string \<Rightarrow> Response \<times> MatchHandler" where
  "LikeUser fails h userID param =
     (case ParseUint param 32 of
        None \<Rightarrow> (StatusBadRequest, h)
      | Some likedID \<Rightarrow>
     (case First (\<lambda>u. User_ID u = likedID \<and> User_IsActive u \<and> User_DeletedAt u = None)
                 (users (db h)) of
        None \<Rightarrow> (StatusNotFound, h)
      | Some likedUser \<Rightarrow>
     (case First (\<lambda>l. LikerID l = userID \<and> LikedID l = likedID) (likes (db h)) of
        Some existingLike \<Rightarrow> (StatusConflict, h)
      | None \<Rightarrow>
     (case First (\<lambda>b. BlockerID b = userID \<and> BlockedID b = likedID) (blocked_users (db h)) of
        Some blocked \<Rightarrow> (StatusForbidden, h)
      | None \<Rightarrow>
     (case Create_Like fails userID likedID (db h) of
        None \<Rightarrow> (StatusInternalServerError, h)
      | Some (like, d1) \<Rightarrow>
     (case First (\<lambda>l. LikerID l = likedID \<and> LikedID l = userID) (likes d1) of
        None \<Rightarrow> (StatusOK, h\<lparr>db := d1\<rparr>)
      | Some mutualLike \<Rightarrow>
     (case Create_Match fails userID likedID d1 of
        None \<Rightarrow> (StatusInternalServerError, h\<lparr>db := d1\<rparr>)
      | Some (match, d2) \<Rightarrow>
     (case Create_Conversation fails (Match_ID match) d2 of
        None \<Rightarrow> (StatusInternalServerError, h\<lparr>db := d2\<rparr>)
      | Some (conversation, d3) \<Rightarrow>
          let d4 = createMatchNotification userID likedID (Match_ID match) d3;
              d5 = createMatchNotification likedID userID (Match_ID match) d4;
              r1 = cacheMatchData (Match_ID match) userID likedID (redis h)
          in (StatusCreated (Match_ID match) likedUser, h\<lparr>db := d5, redis := r1\<rparr>)))))))))"

definition DislikeUser :: "(db_op \<Rightarrow> bool) \<Rightarrow> MatchHandler \<Rightarrow> nat \<Rightarrow> string \<Rightarrow> Response \<times> MatchHandler" where
  "DislikeUser fails h userID param =
     (case ParseUint param 32 of
        None \<Rightarrow> (StatusBadRequest, h)
      | Some dislikedID \<Rightarrow>
     (case First (\<lambda>x. DislikerID x = userID \<and> DislikedID x = dislikedID) (dislikes (db h)) of
        Some existingDislike \<Rightarrow> (StatusConflict, h)
      | None \<Rightarrow>
     (case Create_Dislike fails userID dislikedID (db h) of
        None \<Rightarrow> (StatusInternalServerError, h)
      | Some (dislike, d1) \<Rightarrow> (StatusOK, h\<lparr>db := d1\<rparr>))))"

definition Unmatch :: "(db_op \<Rightarrow> bool) \<Rightarrow> MatchHandler \<Rightarrow> nat \<Rightarrow> string \<Rightarrow> Response \<times> MatchHandler" where
  "Unmatch fails h userID param =
     (case ParseUint param 32 of
        None \<Rightarrow> (StatusBadRequest, h)
      | Some matchID \<Rightarrow>
     (case First (\<lambda>m. Match_ID m = matchID \<and> (User1ID m = userID \<or> User2ID m = userID)
                        \<and> Match_IsActive m \<and> Match_DeletedAt m = None)
                 (matches (db h)) of
        None \<Rightarrow> (StatusNotFound, h)
      | Some match \<Rightarrow>
          if fails SaveMatch then (StatusInternalServerError, h)
          else
            let d1 = Save_Match (match\<lparr>Match_IsActive := False\<rparr>) (db h);
                d2 = (case First (\<lambda>c. MatchID c = matchID \<and> Conversation_DeletedAt c = None)
                                 (conversations d1) of
                        None \<Rightarrow> d1
                      | Some conversation \<Rightarrow>
                          if fails SaveConversation then d1
                          else Save_Conversation (conversation\<lparr>Conversation_IsActive := False\<rparr>) d1);
                r1 = (redis h)(''match:'' @ FormatUint matchID := None)
            in (StatusOK, h\<lparr>db := d2, redis := r1\<rparr>)))"

section \<open>The WebSocket hub (internal/websocket/hub.go)\<close>

text \<open>
  A \<^verbatim>\<open>*Client\<close> is an address; the clients themselves live in a heap, so that the
  registry \<^verbatim>\<open>h.clients\<close> (a \<^verbatim>\<open>map[*Client]bool\<close>, here the list of its keys) and the
  pumps share them. A buffered channel is its queue, its capacity and whether it has been
  closed; a connection is whether it has been closed and the frames written to it.
\<close>

type_synonym ptr = nat

record chan =
  buf :: "string list"
  cap :: nat
  closed :: bool

datatype ws_message = TextMessage string | CloseMessage

record Conn =
  conn_closed :: bool
  written :: "ws_message list"

record Client =
  conn :: Conn
  send :: chan
  userID :: nat
  conversationID :: nat

record State =
  hub_clients :: "ptr list"
  heap :: "ptr \<Rightarrow> Client"

text \<open>A send on a closed channel and a second \<^verbatim>\<open>close\<close> panic in Go.\<close>

datatype panic = SendOnClosedChannel | CloseOfClosedChannel

text \<open>
  The body the three broadcast loops share:
  \<^verbatim>\<open>select { case client.send <- message: default: close(client.send); delete(h.clients, client) }\<close>.
  The send goes through when the queue has room; otherwise the \<^verbatim>\<open>default\<close> branch evicts
  the client.
\<close>

definition send_or_evict :: "string \<Rightarrow> ptr \<Rightarrow> State \<Rightarrow> panic + State" where
  "send_or_evict message p s =
     (let c = heap s p; ch = send c in
      if closed ch then Inl SendOnClosedChannel
      else if length (buf ch) < cap ch
        then Inr (s\<lparr>heap := (heap s)(p := c\<lparr>send := ch\<lparr>buf := buf ch @ [message]\<rparr>\<rparr>)\<rparr>)
        else Inr (s\<lparr>heap := (heap s)(p := c\<lparr>send := ch\<lparr>closed := True\<rparr>\<rparr>),
                    hub_clients := removeAll p (hub_clients s)\<rparr>))"

text \<open>
  \<^verbatim>\<open>for client := range h.clients\<close> over the keys \<open>ps\<close> still to visit; \<open>sel\<close> is the
  loop's filter, read from the client when its turn comes. Go leaves the order of the keys
  open; an iteration touches the visited client only.
\<close>

fun range_clients :: "(Client \<Rightarrow> bool) \<Rightarrow> string \<Rightarrow> ptr list \<Rightarrow> State \<Rightarrow> panic + State" where
  "range_clients sel message [] s = Inr s"
| "range_clients sel message (p # ps) s =
     (if sel (heap s p)
      then (case send_or_evict message p s of
              Inl e \<Rightarrow> Inl e
            | Inr s' \<Rightarrow> range_clients sel message ps s')
      else range_clients sel message ps s)"

definition BroadcastToConversation :: "nat \<Rightarrow> string \<Rightarrow> State \<Rightarrow> panic + State" where
  "BroadcastToConversation convID message s =
     range_clients (\<lambda>c. conversationID c = convID) message (hub_clients s) s"

definition BroadcastToUser :: "nat \<Rightarrow> string \<Rightarrow> State \<Rightarrow> panic + State" where
  "BroadcastToUser uid message s =
     range_clients (\<lambda>c. userID c = uid) message (hub_clients s) s"

text \<open>One turn of the \<^verbatim>\<open>select\<close> loop of \<^verbatim>\<open>Hub.Run\<close>, on the event it received.\<close>

datatype event = Register ptr | Unregister ptr | Broadcast string

fun Run_step :: "event \<Rightarrow> State \<Rightarrow> panic + State" where
  "Run_step (Register p) s =
     Inr (s\<lparr>hub_clients := (if p \<in> set (hub_clients s) then hub_clients s
                             else hub_clients s @ [p])\<rparr>)"
| "Run_step (Unregister p) s =
     (if p \<in> set (hub_clients s)
      then (if closed (send (heap s p)) then Inl CloseOfClosedChannel
            else Inr (s\<lparr>hub_clients := removeAll p (hub_clients s),
                        heap := (heap s)(p := (heap s p)\<lparr>send := (send (heap s p))\<lparr>closed := True\<rparr>\<rparr>)\<rparr>))
      else Inr s)"
| "Run_step (Broadcast message) s = range_clients (\<lambda>c. True) message (hub_clients s) s"

text \<open>
  \<^verbatim>\<open>HandleWebSocket\<close> after a successful upgrade: \<open>user\<close> is the \<^verbatim>\<open>user_id\<close> of the
  context (\<open>None\<close> when the request carries none: the connection is closed and nothing is
  registered), \<open>p\<close> the address of the new client.
\<close>

definition NewClient :: "nat \<Rightarrow> Client" where
  "NewClient uid =
     \<lparr>conn = \<lparr>conn_closed = False, written = []\<rparr>,
      send = \<lparr>buf = [], cap = 256, closed = False\<rparr>,
      userID = uid, conversationID = 0\<rparr>"

definition HandleWebSocket :: "ptr \<Rightarrow> nat option \<Rightarrow> State \<Rightarrow> panic + State" where
  "HandleWebSocket p user s =
     (case user of
        None \<Rightarrow> Inr s
      | Some uid \<Rightarrow> Run_step (Register p) (s\<lparr>heap := (heap s)(p := NewClient uid)\<rparr>))"

text \<open>\<^verbatim>\<open>NewHub\<close>: no client is registered (\<open>hp\<close> is the heap at that time).\<close>

definition NewHub :: "(ptr \<Rightarrow> Client) \<Rightarrow> State" where
  "NewHub hp = \<lparr>hub_clients = [], heap = hp\<rparr>"

subsection \<open>The read pump\<close>

text \<open>
  What \<^verbatim>\<open>json.Unmarshal\<close> stores in a \<^verbatim>\<open>map[string]interface{}\<close>: a JSON number is a
  \<^verbatim>\<open>float64\<close> (a finite one, given here by its value).
\<close>

datatype json =
  JNull | JBool bool | JNumber rat | JString string | JArray "json list" | JObject "(string \<times> json) list"

text \<open>
  One turn of the read loop sees either an error of \<^verbatim>\<open>ReadMessage\<close>, or a frame that
  \<^verbatim>\<open>json.Unmarshal\<close> rejects, or the decoded object.
\<close>

datatype inbound = ReadError | Undecodable | Decoded "string \<Rightarrow> json option"

text \<open>
  The conversion \<^verbatim>\<open>uint(convID)\<close> of a \<^verbatim>\<open>float64\<close> truncates towards zero. Where the
  truncated value is no \<^verbatim>\<open>uint\<close> the result depends on the implementation: \<open>impl\<close>.
\<close>

definition uint_of_float64 :: "(rat \<Rightarrow> nat) \<Rightarrow> rat \<Rightarrow> nat" where
  "uint_of_float64 impl v = (if - 1 < v \<and> v < 2 ^ 64 then nat \<lfloor>v\<rfloor> else impl v)"

record TypingMessage =
  Typing_Type :: string
  Typing_ConversationID :: nat
  Typing_UserID :: nat
  IsTyping :: bool

text \<open>\<^verbatim>\<open>json.Marshal\<close> of a \<^verbatim>\<open>TypingMessage\<close>: the fields in the struct's order under their
  tags. (The type written here is always \<^verbatim>\<open>typing\<close>, which needs no escaping.)\<close>

definition Marshal_TypingMessage :: "TypingMessage \<Rightarrow> string" where
  \<open>Marshal_TypingMessage m =
     ''{"type":"'' @ Typing_Type m @ ''","conversation_id":'' @ FormatUint (Typing_ConversationID m)
       @ '',"user_id":'' @ FormatUint (Typing_UserID m)
       @ '',"is_typing":'' @ (if IsTyping m then ''true'' else ''false'') @ ''}''\<close>

definition typing_frame :: "(rat \<Rightarrow> nat) \<Rightarrow> ptr \<Rightarrow> (string \<Rightarrow> json option) \<Rightarrow> bool \<Rightarrow> State \<Rightarrow> panic + State" where
  "typing_frame impl c message is_typing s =
     (case message ''conversation_id'' of
        Some (JNumber convID) \<Rightarrow>
          BroadcastToConversation (uint_of_float64 impl convID)
            (Marshal_TypingMessage
               \<lparr>Typing_Type = ''typing'', Typing_ConversationID = uint_of_float64 impl convID,
                Typing_UserID = userID (heap s c), IsTyping = is_typing\<rparr>) s
      | _ \<Rightarrow> Inr s)"

text \<open>The \<^verbatim>\<open>switch message["type"]\<close> of the read loop.\<close>

definition handle_message :: "(rat \<Rightarrow> nat) \<Rightarrow> ptr \<Rightarrow> (string \<Rightarrow> json option) \<Rightarrow> State \<Rightarrow> panic + State" where
  "handle_message impl c message s =
     (case message ''type'' of
        Some (JString t) \<Rightarrow>
          if t = ''join_conversation'' then
            (case message ''conversation_id'' of
               Some (JNumber convID) \<Rightarrow>
                 Inr (s\<lparr>heap := (heap s)(c := (heap s c)\<lparr>conversationID := uint_of_float64 impl convID\<rparr>)\<rparr>)
             | _ \<Rightarrow> Inr s)
          else if t = ''typing'' then typing_frame impl c message True s
          else if t = ''stop_typing'' then typing_frame impl c message False s
          else Inr s
      | _ \<Rightarrow> Inr s)"

text \<open>The deferred function of \<^verbatim>\<open>readPump\<close>: the hub takes the unregister event, then the
  connection is closed.\<close>

definition readPump_deferred :: "ptr \<Rightarrow> State \<Rightarrow> panic + State" where
  "readPump_deferred c s =
     (case Run_step (Unregister c) s of
        Inl e \<Rightarrow> Inl e
      | Inr s' \<Rightarrow>
          Inr (s'\<lparr>heap := (heap s')(c := (heap s' c)\<lparr>conn := (conn (heap s' c))\<lparr>conn_closed := True\<rparr>\<rparr>)\<rparr>))"

text \<open>
  \<^verbatim>\<open>readPump\<close> on the outcomes of its successive reads. A read error leaves the loop and
  runs the deferred function; a frame that does not decode is logged and skipped
  (\<^verbatim>\<open>continue\<close>); when the outcomes are used up the pump is waiting in \<^verbatim>\<open>ReadMessage\<close>.
\<close>

fun readPump :: "(rat \<Rightarrow> nat) \<Rightarrow> ptr \<Rightarrow> inbound list \<Rightarrow> State \<Rightarrow> panic + State" where
  "readPump impl c [] s = Inr s"
| "readPump impl c (ReadError # rest) s = readPump_deferred c s"
| "readPump impl c (Undecodable # rest) s = readPump impl c rest s"
| "readPump impl c (Decoded message # rest) s =
     (case handle_message impl c message s of
        Inl e \<Rightarrow> Inl e
      | Inr s' \<Rightarrow> readPump impl c rest s')"

subsection \<open>The write pump\<close>

text \<open>
  \<^verbatim>\<open>writePump\<close> takes the queued frames in order and writes each to the socket; a write
  to a closed connection fails and ends the pump. On the closed, drained channel it writes
  the close message and ends, closing the connection; on the open, empty channel it waits.
\<close>

function writePump :: "ptr \<Rightarrow> State \<Rightarrow> State" where
  "writePump c s =
     (let cl = heap s c in
      if buf (send cl) = [] then
        (if closed (send cl)
         then s\<lparr>heap := (heap s)(c := cl\<lparr>conn :=
                  \<lparr>conn_closed = True,
                   written = (if conn_closed (conn cl) then written (conn cl)
                              else written (conn cl) @ [CloseMessage])\<rparr>\<rparr>)\<rparr>
         else s)
      else if conn_closed (conn cl)
        then s\<lparr>heap := (heap s)(c := cl\<lparr>send := (send cl)\<lparr>buf := tl (buf (send cl))\<rparr>\<rparr>)\<rparr>
        else writePump c
               (s\<lparr>heap := (heap s)(c := cl\<lparr>send := (send cl)\<lparr>buf := tl (buf (send cl))\<rparr>,
                     conn := (conn cl)\<lparr>written := written (conn cl) @ [TextMessage (hd (buf (send cl)))]\<rparr>\<rparr>)\<rparr>))"
  by pat_completeness auto
termination
  by (relation "measure (\<lambda>(c, s). length (buf (send (heap s c))))") auto

declare writePump.simps [simp del]

text \<open>
  The registry's invariant: its keys are distinct (it is a map) and the outbound channel of
  every registered client is open.
\<close>

definition hub_inv :: "State \<Rightarrow> bool" where
  "hub_inv s \<longleftrightarrow> distinct (hub_clients s) \<and> (\<forall>p \<in> set (hub_clients s). \<not> closed (send (heap s p)))"

text \<open>The sessions a fan-out to conversation \<open>convID\<close> reaches: the clients the loop of
  \<^verbatim>\<open>BroadcastToConversation\<close> selects.\<close>

definition joined :: "State \<Rightarrow> nat \<Rightarrow> ptr list" where
  "joined s convID = filter (\<lambda>p. conversationID (heap s p) = convID) (hub_clients s)"

text \<open>
  What can happen to the hub and its clients, one thing at a time: a connection is admitted,
  the hub takes an unregister or a broadcast event, a handler or a pump broadcasts to a
  conversation or to a user, a read pump consumes the outcomes of some reads, a write pump
  drains its queue. (A register event reaches the hub from \<^verbatim>\<open>HandleWebSocket\<close> only.)
\<close>

datatype hub_op =
    Connect ptr "nat option"
  | Disconnect ptr
  | BroadcastAll string
  | ToConversation nat string
  | ToUser nat string
  | Reads ptr "inbound list"
  | Writes ptr

fun apply_op :: "(rat \<Rightarrow> nat) \<Rightarrow> hub_op \<Rightarrow> State \<Rightarrow> panic + State" where
  "apply_op impl (Connect p user) s = HandleWebSocket p user s"
| "apply_op impl (Disconnect p) s = Run_step (Unregister p) s"
| "apply_op impl (BroadcastAll message) s = Run_step (Broadcast message) s"
| "apply_op impl (ToConversation convID message) s = BroadcastToConversation convID message s"
| "apply_op impl (ToUser uid message) s = BroadcastToUser uid message s"
| "apply_op impl (Reads p frames) s = readPump impl p frames s"
| "apply_op impl (Writes p) s = Inr (writePump p s)"

fun run_ops :: "(rat \<Rightarrow> nat) \<Rightarrow> hub_op list \<Rightarrow> State \<Rightarrow> panic + State" where
  "run_ops impl [] s = Inr s"
| "run_ops impl (op # ops) s =
     (case apply_op impl op s of Inl e \<Rightarrow> Inl e | Inr s' \<Rightarrow> run_ops impl ops s')"

text \<open>
  What one visit of a broadcast loop with filter \<open>sel\<close> does to the client it visits, and
  whether it evicts it (both read off \<open>send_or_evict\<close>).
\<close>

definition visited :: "(Client \<Rightarrow> bool) \<Rightarrow> string \<Rightarrow> Client \<Rightarrow> Client" where
  "visited sel message c =
     (if sel c
      then (if length (buf (send c)) < cap (send c)
            then c\<lparr>send := (send c)\<lparr>buf := buf (send c) @ [message]\<rparr>\<rparr>
            else c\<lparr>send := (send c)\<lparr>closed := True\<rparr>\<rparr>)
      else c)"

definition evicted :: "(Client \<Rightarrow> bool) \<Rightarrow> Client \<Rightarrow> bool" where
  "evicted sel c \<longleftrightarrow> sel c \<and> \<not> length (buf (send c)) < cap (send c)"

section \<open>Example states\<close>

text \<open>A store in which every write succeeds.\<close>

definition no_faults :: "db_op \<Rightarrow> bool" where
  "no_faults op = False"

definition empty_db :: DB where
  "empty_db =
     \<lparr>users = [], likes = [], dislikes = [], blocked_users = [], matches = [],
      conversations = [], notifications = [], likes_seq = 1, dislikes_seq = 1,
      matches_seq = 1, conversations_seq = 1, notifications_seq = 1\<rparr>"

text \<open>Two active users, 1 and 2, and nothing else.\<close>

definition two_users :: MatchHandler where
  "two_users =
     \<lparr>db = empty_db\<lparr>users :=
             [\<lparr>User_ID = 1, User_IsActive = True, User_DeletedAt = None\<rparr>,
              \<lparr>User_ID = 2, User_IsActive = True, User_DeletedAt = None\<rparr>]\<rparr>,
      redis = (\<lambda>k. None)\<rparr>"

text \<open>The same store after user 1 has liked user 2, and after user 2 has liked back.\<close>

definition after_first_like :: MatchHandler where
  "after_first_like = snd (LikeUser no_faults two_users 1 ''2'')"

definition after_mutual_like :: MatchHandler where
  "after_mutual_like = snd (LikeUser no_faults after_first_like 2 ''1'')"

text \<open>User 1 has blocked user 2: with nothing else; after having liked user 2; and with
  user 2 deactivated.\<close>

definition blocked_pair :: MatchHandler where
  "blocked_pair =
     two_users\<lparr>db := (db two_users)\<lparr>blocked_users :=
       [\<lparr>BlockedUser_ID = 1, BlockerID = 1, BlockedID = 2\<rparr>]\<rparr>\<rparr>"

definition blocked_after_like :: MatchHandler where
  "blocked_after_like =
     after_first_like\<lparr>db := (db after_first_like)\<lparr>blocked_users :=
       [\<lparr>BlockedUser_ID = 1, BlockerID = 1, BlockedID = 2\<rparr>]\<rparr>\<rparr>"

definition blocked_inactive :: MatchHandler where
  "blocked_inactive =
     blocked_pair\<lparr>db := (db blocked_pair)\<lparr>users :=
       [\<lparr>User_ID = 1, User_IsActive = True, User_DeletedAt = None\<rparr>,
        \<lparr>User_ID = 2, User_IsActive = False, User_DeletedAt = None\<rparr>]\<rparr>\<rparr>"


text \<open>User 1 has liked user 2 and then disliked them.\<close>

definition after_dislike :: MatchHandler where
  "after_dislike = snd (DislikeUser no_faults after_first_like 1 ''2'')"


text \<open>An out-of-range conversion that saturates (as on arm64).\<close>

definition saturating :: "rat \<Rightarrow> nat" where
  "saturating v = (if v < 0 then 0 else 2 ^ 64 - 1)"

text \<open>One registered client, at address 1, of user 5, just connected.\<close>

definition one_client :: State where
  "one_client = \<lparr>hub_clients = [1], heap = (\<lambda>p. NewClient 5)\<rparr>"

definition one_client_joined :: State where
  "one_client_joined =
     one_client\<lparr>heap := (heap one_client)(1 := (heap one_client 1)\<lparr>conversationID := 7\<rparr>)\<rparr>"

text \<open>The same client with 256 frames waiting in its outbound queue, before and after it
  joins conversation 7, and after a broadcast to conversation 7 has found the queue full.\<close>

definition full_queue :: State where
  "full_queue =
     \<lparr>hub_clients = [1],
      heap = (\<lambda>p. (NewClient 5)\<lparr>send := \<lparr>buf = replicate 256 ''m'', cap = 256, closed = False\<rparr>\<rparr>)\<rparr>"

definition full_queue_joined :: State where
  "full_queue_joined =
     full_queue\<lparr>heap := (heap full_queue)(1 := (heap full_queue 1)\<lparr>conversationID := 7\<rparr>)\<rparr>"

definition full_queue_evicted :: State where
  "full_queue_evicted =
     \<lparr>hub_clients = [],
      heap = (heap full_queue_joined)(1 :=
               (heap full_queue_joined 1)\<lparr>send := \<lparr>buf = replicate 256 ''m'', cap = 256, closed = True\<rparr>\<rparr>)\<rparr>"

section \<open>Properties of the store\<close>

lemma First_None_iff: "First cond rows = None \<longleftrightarrow> (\<forall>x \<in> set rows. \<not> cond x)"
  by (auto simp: First_def find_None_iff)


lemma First_append:
  "First cond (xs @ ys) = (case First cond xs of None \<Rightarrow> First cond ys | Some x \<Rightarrow> Some x)"
  by (induction xs) (auto simp: First_def)


section \<open>Liking\<close>

lemmas like_defs = LikeUser_def Create_Like_def Create_Match_def Create_Conversation_def
        createMatchNotification_def Let_def

lemma LikeUser_success:
  assumes "LikeUser fails h a p = (r, h1)"
    and "r = StatusOK \<or> (\<exists>m u. r = StatusCreated m u)"
  shows "\<exists>liked. ParseUint p 32 = Some liked
           \<and> users (db h1) = users (db h)
           \<and> First (\<lambda>u. User_ID u = liked \<and> User_IsActive u \<and> User_DeletedAt u = None)
                 (users (db h)) \<noteq> None
           \<and> likes (db h1) =
               likes (db h) @ [\<lparr>Like_ID = likes_seq (db h), LikerID = a, LikedID = liked\<rparr>]"
  using assms
  by (auto simp: like_defs split: option.splits prod.splits if_splits)

text \<open>
  Claim C2. After a successful \<open>like(A,B)\<close> (a plain like or a match), the same call
  again answers Conflict and leaves the whole state as it was: no Like row, no Match.
  This holds whichever writes would fail in the second call.
\<close>

theorem like_twice_conflict:
  assumes "LikeUser fails h a p = (r, h1)"
    and "r = StatusOK \<or> (\<exists>m u. r = StatusCreated m u)"
  shows "LikeUser fails' h1 a p = (StatusConflict, h1)"
proof -
  from LikeUser_success[OF assms] obtain liked where
    p: "ParseUint p 32 = Some liked" and u: "users (db h1) = users (db h)"
    and ex: "First (\<lambda>u. User_ID u = liked \<and> User_IsActive u \<and> User_DeletedAt u = None)
               (users (db h)) \<noteq> None"
    and l: "likes (db h1) =
              likes (db h) @ [\<lparr>Like_ID = likes_seq (db h), LikerID = a, LikedID = liked\<rparr>]"
    by blast
  have "First (\<lambda>l. LikerID l = a \<and> LikedID l = liked) (likes (db h1)) \<noteq> None"
    by (simp add: l First_None_iff)
  with p u ex show ?thesis
    by (auto simp: LikeUser_def split: option.splits)
qed

lemmas example_defs =
  two_users_def empty_db_def no_faults_def LikeUser_def DislikeUser_def Unmatch_def
  ParseUint_def digit_val_def First_def Create_Like_def Create_Dislike_def Create_Match_def
  Create_Conversation_def Save_Match_def Save_Conversation_def createMatchNotification_def
  cacheMatchData_def Let_def

theorem like_twice_conflict_witness:
  "fst (LikeUser no_faults two_users 1 ''2'') = StatusOK \<and>
   LikeUser no_faults (snd (LikeUser no_faults two_users 1 ''2'')) 1 ''2'' =
     (StatusConflict, snd (LikeUser no_faults two_users 1 ''2''))"
proof -
  have ok: "fst (LikeUser no_faults two_users 1 ''2'') = StatusOK"
    by (simp add: example_defs)
  have "LikeUser no_faults two_users 1 ''2'' =
          (StatusOK, snd (LikeUser no_faults two_users 1 ''2''))"
    using ok by (metis prod.collapse)
  from like_twice_conflict[OF this, of no_faults] ok show ?thesis
    by simp
qed

lemma LikeUser_plain:
  assumes "ParseUint p 32 = Some liked"
    and "First (\<lambda>u. User_ID u = liked \<and> User_IsActive u \<and> User_DeletedAt u = None) (users (db h)) = Some lu"
    and "\<forall>l \<in> set (likes (db h)). \<not> (LikerID l = liker \<and> LikedID l = liked)"
    and "\<forall>b \<in> set (blocked_users (db h)). \<not> (BlockerID b = liker \<and> BlockedID b = liked)"
    and "\<forall>l \<in> set (likes (db h)). \<not> (LikerID l = liked \<and> LikedID l = liker)"
    and "liker \<noteq> liked"
    and "\<not> fails CreateLike"
  shows "LikeUser fails h liker p =
           (StatusOK, h\<lparr>db := (db h)\<lparr>likes := likes (db h) @ [\<lparr>Like_ID = likes_seq (db h), LikerID = liker, LikedID = liked\<rparr>],
                                  likes_seq := Suc (likes_seq (db h))\<rparr>\<rparr>)"
proof -
  have a: "First (\<lambda>l. LikerID l = liker \<and> LikedID l = liked) (likes (db h)) = None"
    using assms(3) by (simp add: First_None_iff)
  have b: "First (\<lambda>b. BlockerID b = liker \<and> BlockedID b = liked) (blocked_users (db h)) = None"
    using assms(4) by (simp add: First_None_iff)
  have c: "First (\<lambda>l. LikerID l = liked \<and> LikedID l = liker)
             (likes (db h) @ [\<lparr>Like_ID = likes_seq (db h), LikerID = liker, LikedID = liked\<rparr>]) = None"
    using assms(5,6) by (auto simp add: First_None_iff)
  show ?thesis
    using assms(1,2,7) a b c by (simp add: like_defs)
qed

lemma LikeUser_match:
  assumes "ParseUint p 32 = Some liked"
    and "First (\<lambda>u. User_ID u = liked \<and> User_IsActive u \<and> User_DeletedAt u = None) (users (db h)) = Some lu"
    and "\<forall>l \<in> set (likes (db h)). \<not> (LikerID l = liker \<and> LikedID l = liked)"
    and "\<forall>b \<in> set (blocked_users (db h)). \<not> (BlockerID b = liker \<and> BlockedID b = liked)"
    and "\<exists>l \<in> set (likes (db h)). LikerID l = liked \<and> LikedID l = liker"
    and "\<not> fails CreateLike" "\<not> fails CreateMatch" "\<not> fails CreateConversation"
    and "LikeUser fails h liker p = (r, h')"
  shows "r = StatusCreated (matches_seq (db h)) lu
       \<and> likes (db h') = likes (db h) @ [\<lparr>Like_ID = likes_seq (db h), LikerID = liker, LikedID = liked\<rparr>]
       \<and> matches (db h') = matches (db h) @
            [\<lparr>Match_ID = matches_seq (db h), User1ID = liker, User2ID = liked,
              Match_IsActive = True, Match_DeletedAt = None\<rparr>]
       \<and> conversations (db h') = conversations (db h) @
            [\<lparr>Conversation_ID = conversations_seq (db h), MatchID = matches_seq (db h),
              Conversation_IsActive = True, Conversation_DeletedAt = None\<rparr>]"
proof -
  have a: "First (\<lambda>l. LikerID l = liker \<and> LikedID l = liked) (likes (db h)) = None"
    using assms(3) by (simp add: First_None_iff)
  have b: "First (\<lambda>b. BlockerID b = liker \<and> BlockedID b = liked) (blocked_users (db h)) = None"
    using assms(4) by (simp add: First_None_iff)
  have "First (\<lambda>l. LikerID l = liked \<and> LikedID l = liker)
             (likes (db h) @ [\<lparr>Like_ID = likes_seq (db h), LikerID = liker, LikedID = liked\<rparr>]) \<noteq> None"
    using assms(5) by (auto simp add: First_None_iff)
  then obtain ml where c: "First (\<lambda>l. LikerID l = liked \<and> LikedID l = liker)
             (likes (db h) @ [\<lparr>Like_ID = likes_seq (db h), LikerID = liker, LikedID = liked\<rparr>]) = Some ml"
    by blast
  show ?thesis
    using assms(1,2,6,7,8,9) a b c by (auto simp add: like_defs)
qed

lemma LikeUser_frame:
  assumes "LikeUser fails h a p = (r, h')"
  shows "users (db h') = users (db h) \<and> blocked_users (db h') = blocked_users (db h)
       \<and> dislikes (db h') = dislikes (db h)
       \<and> (\<exists>ys. likes (db h') = likes (db h) @ ys)"
  using assms
  by (auto simp: like_defs split: option.splits prod.splits if_splits)

lemma DislikeUser_frame:
  assumes "DislikeUser fails h a p = (r, h')"
  shows "users (db h') = users (db h) \<and> blocked_users (db h') = blocked_users (db h)
       \<and> likes (db h') = likes (db h) \<and> matches (db h') = matches (db h)
       \<and> conversations (db h') = conversations (db h)"
  using assms
  by (auto simp: DislikeUser_def Create_Dislike_def Let_def split: option.splits prod.splits if_splits)

lemma Unmatch_frame:
  assumes "Unmatch fails h a p = (r, h')"
  shows "users (db h') = users (db h) \<and> blocked_users (db h') = blocked_users (db h)
       \<and> likes (db h') = likes (db h) \<and> dislikes (db h') = dislikes (db h)"
  using assms
  by (auto simp: Unmatch_def Save_Match_def Save_Conversation_def Let_def
      split: option.splits prod.splits if_splits)

lemma DislikeUser_reads_dislikes_only:
  assumes "dislikes (db h) = dislikes (db g)"
  shows "fst (DislikeUser fails h a p) = fst (DislikeUser fails g a p)"
  using assms
  by (auto simp: DislikeUser_def Create_Dislike_def Let_def split: option.splits prod.splits if_splits)

text \<open>
  Claim C1. Users \<open>a\<close> and \<open>b\<close> are distinct, both active, and have no Like or block
  between them; no write fails. Then \<open>like(a,b)\<close> answers the plain 200 and creates no
  Match or Conversation, and \<open>like(b,a)\<close> answers 201 (a match, not the plain like). The
  second call appends exactly one Match, active, with the later liker \<open>b\<close> as its first user,
  and exactly one Conversation, active, whose \<open>MatchID\<close> is that Match's id.
\<close>

theorem mutual_like_creates_match:
  assumes pa: "ParseUint pa 32 = Some a" and pb: "ParseUint pb 32 = Some b" and ab: "a \<noteq> b"
    and ua: "First (\<lambda>u. User_ID u = a \<and> User_IsActive u \<and> User_DeletedAt u = None) (users (db h)) = Some ua"
    and ub: "First (\<lambda>u. User_ID u = b \<and> User_IsActive u \<and> User_DeletedAt u = None) (users (db h)) = Some ub"
    and nolikes: "\<forall>l \<in> set (likes (db h)). \<not> (LikerID l = a \<and> LikedID l = b) \<and> \<not> (LikerID l = b \<and> LikedID l = a)"
    and noblocks: "\<forall>x \<in> set (blocked_users (db h)). \<not> (BlockerID x = a \<and> BlockedID x = b) \<and> \<not> (BlockerID x = b \<and> BlockedID x = a)"
    and ok: "\<not> fails CreateLike" "\<not> fails CreateMatch" "\<not> fails CreateConversation"
    and first: "LikeUser fails h a pb = (r1, h1)"
    and second: "LikeUser fails h1 b pa = (r2, h2)"
  shows "r1 = StatusOK \<and> r2 = StatusCreated (matches_seq (db h)) ua \<and> r2 \<noteq> r1
       \<and> matches (db h1) = matches (db h) \<and> conversations (db h1) = conversations (db h)
       \<and> matches (db h2) = matches (db h) @
            [\<lparr>Match_ID = matches_seq (db h), User1ID = b, User2ID = a,
              Match_IsActive = True, Match_DeletedAt = None\<rparr>]
       \<and> conversations (db h2) = conversations (db h) @
            [\<lparr>Conversation_ID = conversations_seq (db h), MatchID = matches_seq (db h),
              Conversation_IsActive = True, Conversation_DeletedAt = None\<rparr>]"
proof -
  have "LikeUser fails h a pb =
          (StatusOK, h\<lparr>db := (db h)\<lparr>likes := likes (db h) @ [\<lparr>Like_ID = likes_seq (db h), LikerID = a, LikedID = b\<rparr>],
                                  likes_seq := Suc (likes_seq (db h))\<rparr>\<rparr>)"
    using pb ub nolikes noblocks ab ok(1) by (intro LikeUser_plain) auto
  with first have r1: "r1 = StatusOK"
    and h1: "h1 = h\<lparr>db := (db h)\<lparr>likes := likes (db h) @ [\<lparr>Like_ID = likes_seq (db h), LikerID = a, LikedID = b\<rparr>],
                                  likes_seq := Suc (likes_seq (db h))\<rparr>\<rparr>"
    by simp_all
  have m: "r2 = StatusCreated (matches_seq (db h1)) ua
       \<and> likes (db h2) = likes (db h1) @ [\<lparr>Like_ID = likes_seq (db h1), LikerID = b, LikedID = a\<rparr>]
       \<and> matches (db h2) = matches (db h1) @
            [\<lparr>Match_ID = matches_seq (db h1), User1ID = b, User2ID = a,
              Match_IsActive = True, Match_DeletedAt = None\<rparr>]
       \<and> conversations (db h2) = conversations (db h1) @
            [\<lparr>Conversation_ID = conversations_seq (db h1), MatchID = matches_seq (db h1),
              Conversation_IsActive = True, Conversation_DeletedAt = None\<rparr>]"
  proof (rule LikeUser_match[OF pa _ _ _ _ ok second])
    show "First (\<lambda>u. User_ID u = a \<and> User_IsActive u \<and> User_DeletedAt u = None) (users (db h1)) = Some ua"
      using ua by (simp add: h1)
    show "\<forall>l \<in> set (likes (db h1)). \<not> (LikerID l = b \<and> LikedID l = a)"
      using nolikes ab by (auto simp: h1)
    show "\<forall>x \<in> set (blocked_users (db h1)). \<not> (BlockerID x = b \<and> BlockedID x = a)"
      using noblocks by (auto simp: h1)
    show "\<exists>l \<in> set (likes (db h1)). LikerID l = a \<and> LikedID l = b"
      by (simp add: h1)
  qed
  show ?thesis using m r1 by (simp add: h1)
qed

text \<open>
  Claim C6. No operation of the match handler removes a Like row: \<open>LikeUser\<close> only
  appends to the table, \<open>DislikeUser\<close> and \<open>Unmatch\<close> leave it as it is. The answer of
  \<open>DislikeUser\<close> depends on the Dislike table alone, so neither blocks nor likes are
  consulted. After \<open>like(a,b)\<close> and then \<open>dislike(a,b)\<close>, whatever the dislike answered,
  the Like row of \<open>a\<close> for \<open>b\<close> is still there and \<open>like(b,a)\<close> answers 201 and creates
  the Match.
\<close>

theorem dislike_keeps_like:
  "(LikeUser fails h a p = (r, h') \<longrightarrow> (\<exists>ys. likes (db h') = likes (db h) @ ys))
 \<and> (DislikeUser fails h a p = (r, h') \<longrightarrow>
      likes (db h') = likes (db h) \<and> blocked_users (db h') = blocked_users (db h))
 \<and> (Unmatch fails h a p = (r, h') \<longrightarrow> likes (db h') = likes (db h))
 \<and> (dislikes (db h) = dislikes (db g) \<longrightarrow>
      fst (DislikeUser fails h a p) = fst (DislikeUser fails g a p))
 \<and> (ParseUint pa 32 = Some a \<and> ParseUint pb 32 = Some b \<and> a \<noteq> b
      \<and> First (\<lambda>u. User_ID u = a \<and> User_IsActive u \<and> User_DeletedAt u = None) (users (db h)) = Some ua
      \<and> (\<forall>l \<in> set (likes (db h)). \<not> (LikerID l = b \<and> LikedID l = a))
      \<and> (\<forall>x \<in> set (blocked_users (db h)). \<not> (BlockerID x = b \<and> BlockedID x = a))
      \<and> LikeUser fails1 h a pb = (StatusOK, h1)
      \<and> DislikeUser fails2 h1 a pb = (r2, h2)
      \<and> \<not> fails CreateLike \<and> \<not> fails CreateMatch \<and> \<not> fails CreateConversation
      \<and> LikeUser fails h2 b pa = (r3, h3)
    \<longrightarrow> likes (db h2) = likes (db h1)
        \<and> (\<exists>l \<in> set (likes (db h2)). LikerID l = a \<and> LikedID l = b)
        \<and> r3 = StatusCreated (matches_seq (db h2)) ua
        \<and> matches (db h3) = matches (db h2) @
            [\<lparr>Match_ID = matches_seq (db h2), User1ID = b, User2ID = a,
              Match_IsActive = True, Match_DeletedAt = None\<rparr>])"
proof (intro conjI impI)
  assume "LikeUser fails h a p = (r, h')"
  then show "\<exists>ys. likes (db h') = likes (db h) @ ys" using LikeUser_frame by blast
next
  assume d: "DislikeUser fails h a p = (r, h')"
  from DislikeUser_frame[OF d] show "likes (db h') = likes (db h)" by simp
  from DislikeUser_frame[OF d] show "blocked_users (db h') = blocked_users (db h)" by simp
next
  assume "Unmatch fails h a p = (r, h')"
  from Unmatch_frame[OF this] show "likes (db h') = likes (db h)" by simp
next
  assume "dislikes (db h) = dislikes (db g)"
  then show "fst (DislikeUser fails h a p) = fst (DislikeUser fails g a p)"
    by (rule DislikeUser_reads_dislikes_only)
next
  assume A: "ParseUint pa 32 = Some a \<and> ParseUint pb 32 = Some b \<and> a \<noteq> b
      \<and> First (\<lambda>u. User_ID u = a \<and> User_IsActive u \<and> User_DeletedAt u = None) (users (db h)) = Some ua
      \<and> (\<forall>l \<in> set (likes (db h)). \<not> (LikerID l = b \<and> LikedID l = a))
      \<and> (\<forall>x \<in> set (blocked_users (db h)). \<not> (BlockerID x = b \<and> BlockedID x = a))
      \<and> LikeUser fails1 h a pb = (StatusOK, h1)
      \<and> DislikeUser fails2 h1 a pb = (r2, h2)
      \<and> \<not> fails CreateLike \<and> \<not> fails CreateMatch \<and> \<not> fails CreateConversation
      \<and> LikeUser fails h2 b pa = (r3, h3)"
  then have l1: "LikeUser fails1 h a pb = (StatusOK, h1)" and d: "DislikeUser fails2 h1 a pb = (r2, h2)"
    and l3: "LikeUser fails h2 b pa = (r3, h3)" and pa: "ParseUint pa 32 = Some a"
    and pb: "ParseUint pb 32 = Some b" and ab: "a \<noteq> b"
    and ok: "\<not> fails CreateLike" "\<not> fails CreateMatch" "\<not> fails CreateConversation"
    by simp_all
  from LikeUser_success[OF l1] pb
  have lk: "likes (db h1) = likes (db h) @ [\<lparr>Like_ID = likes_seq (db h), LikerID = a, LikedID = b\<rparr>]"
    by auto
  from LikeUser_frame[OF l1] have f1: "users (db h1) = users (db h)" "blocked_users (db h1) = blocked_users (db h)"
    by simp_all
  from DislikeUser_frame[OF d] have f2: "users (db h2) = users (db h1)"
    "blocked_users (db h2) = blocked_users (db h1)" "likes (db h2) = likes (db h1)"
    by simp_all
  have m: "r3 = StatusCreated (matches_seq (db h2)) ua
       \<and> likes (db h3) = likes (db h2) @ [\<lparr>Like_ID = likes_seq (db h2), LikerID = b, LikedID = a\<rparr>]
       \<and> matches (db h3) = matches (db h2) @
            [\<lparr>Match_ID = matches_seq (db h2), User1ID = b, User2ID = a,
              Match_IsActive = True, Match_DeletedAt = None\<rparr>]
       \<and> conversations (db h3) = conversations (db h2) @
            [\<lparr>Conversation_ID = conversations_seq (db h2), MatchID = matches_seq (db h2),
              Conversation_IsActive = True, Conversation_DeletedAt = None\<rparr>]"
  proof (rule LikeUser_match[OF pa _ _ _ _ ok l3])
    show "First (\<lambda>u. User_ID u = a \<and> User_IsActive u \<and> User_DeletedAt u = None) (users (db h2)) = Some ua"
      using A by (simp add: f1 f2)
    show "\<forall>l \<in> set (likes (db h2)). \<not> (LikerID l = b \<and> LikedID l = a)"
      using A ab by (auto simp: f2 lk)
    show "\<forall>x \<in> set (blocked_users (db h2)). \<not> (BlockerID x = b \<and> BlockedID x = a)"
      using A by (auto simp: f1 f2)
    show "\<exists>l \<in> set (likes (db h2)). LikerID l = a \<and> LikedID l = b"
      by (simp add: f2 lk)
  qed
  show "likes (db h2) = likes (db h1)" by (rule f2)
  show "\<exists>l \<in> set (likes (db h2)). LikerID l = a \<and> LikedID l = b" by (simp add: f2 lk)
  show "r3 = StatusCreated (matches_seq (db h2)) ua" using m by simp
  show "matches (db h3) = matches (db h2) @
            [\<lparr>Match_ID = matches_seq (db h2), User1ID = b, User2ID = a,
              Match_IsActive = True, Match_DeletedAt = None\<rparr>]" using m by simp
qed

text \<open>
  Claim C7, as amended. \<open>like(liker, liked)\<close> answers Forbidden exactly when the liked user
  exists and is active, the liker has not liked them yet, and the liker has blocked them:
  the two earlier checks (404, 409) win over the block. Only a block row of the liker for the
  liked user counts, so without one the answer is never Forbidden, whatever the liked user
  has blocked. On Forbidden the state is unchanged.
\<close>

theorem like_forbidden_iff:
  assumes "ParseUint p 32 = Some liked" and "LikeUser fails h liker p = (r, h')"
  shows "(r = StatusForbidden \<longleftrightarrow>
            (\<exists>u \<in> set (users (db h)). User_ID u = liked \<and> User_IsActive u \<and> User_DeletedAt u = None)
          \<and> (\<forall>l \<in> set (likes (db h)). \<not> (LikerID l = liker \<and> LikedID l = liked))
          \<and> (\<exists>b \<in> set (blocked_users (db h)). BlockerID b = liker \<and> BlockedID b = liked))
       \<and> ((\<forall>b \<in> set (blocked_users (db h)). \<not> (BlockerID b = liker \<and> BlockedID b = liked))
            \<longrightarrow> r \<noteq> StatusForbidden)
       \<and> (r = StatusForbidden \<longrightarrow> h' = h)"
proof -
  let ?U = "First (\<lambda>u. User_ID u = liked \<and> User_IsActive u \<and> User_DeletedAt u = None) (users (db h))"
  let ?L = "First (\<lambda>l. LikerID l = liker \<and> LikedID l = liked) (likes (db h))"
  let ?B = "First (\<lambda>b. BlockerID b = liker \<and> BlockedID b = liked) (blocked_users (db h))"
  have U: "?U \<noteq> None \<longleftrightarrow> (\<exists>u \<in> set (users (db h)). User_ID u = liked \<and> User_IsActive u \<and> User_DeletedAt u = None)"
    by (auto simp add: First_None_iff)
  have L: "?L = None \<longleftrightarrow> (\<forall>l \<in> set (likes (db h)). \<not> (LikerID l = liker \<and> LikedID l = liked))"
    by (simp add: First_None_iff)
  have B: "?B \<noteq> None \<longleftrightarrow> (\<exists>b \<in> set (blocked_users (db h)). BlockerID b = liker \<and> BlockedID b = liked)"
    by (simp add: First_None_iff)
  have key: "(r = StatusForbidden \<longleftrightarrow> ?U \<noteq> None \<and> ?L = None \<and> ?B \<noteq> None)
             \<and> (r = StatusForbidden \<longrightarrow> h' = h)"
    using assms
    by (auto simp: like_defs split: option.splits prod.splits if_splits)
  show ?thesis
    using key unfolding U L B by blast
qed



section \<open>The hub\<close>

lemma send_or_evict_result:
  assumes "\<not> closed (send (heap s p))"
  shows "send_or_evict message p s =
     Inr (if length (buf (send (heap s p))) < cap (send (heap s p))
          then s\<lparr>heap := (heap s)(p := (heap s p)\<lparr>send := (send (heap s p))\<lparr>buf := buf (send (heap s p)) @ [message]\<rparr>\<rparr>)\<rparr>
          else s\<lparr>heap := (heap s)(p := (heap s p)\<lparr>send := (send (heap s p))\<lparr>closed := True\<rparr>\<rparr>),
                 hub_clients := removeAll p (hub_clients s)\<rparr>)"
  using assms by (simp add: send_or_evict_def Let_def)

lemma range_clients_result:
  assumes "distinct ps" and "\<forall>p \<in> set ps. \<not> closed (send (heap s p))"
  shows "range_clients sel message ps s =
     Inr (s\<lparr>heap := (\<lambda>p. if p \<in> set ps then visited sel message (heap s p) else heap s p),
            hub_clients := filter (\<lambda>p. \<not> (p \<in> set ps \<and> evicted sel (heap s p))) (hub_clients s)\<rparr>)"
  using assms
proof (induction ps arbitrary: s)
  case Nil
  then show ?case by simp
next
  case (Cons p ps)
  show ?case
  proof (cases "sel (heap s p)")
    case False
    have "range_clients sel message (p # ps) s = range_clients sel message ps s"
      using False by simp
    also have "\<dots> = Inr (s\<lparr>heap := (\<lambda>q. if q \<in> set ps then visited sel message (heap s q) else heap s q),
            hub_clients := filter (\<lambda>q. \<not> (q \<in> set ps \<and> evicted sel (heap s q))) (hub_clients s)\<rparr>)"
      using Cons by simp
    also have "(\<lambda>q. if q \<in> set ps then visited sel message (heap s q) else heap s q)
             = (\<lambda>q. if q \<in> set (p # ps) then visited sel message (heap s q) else heap s q)"
      using False by (auto simp: visited_def fun_eq_iff)
    also have "filter (\<lambda>q. \<not> (q \<in> set ps \<and> evicted sel (heap s q))) (hub_clients s)
             = filter (\<lambda>q. \<not> (q \<in> set (p # ps) \<and> evicted sel (heap s q))) (hub_clients s)"
      using False by (intro filter_cong) (auto simp: evicted_def)
    finally show ?thesis .
  next
    case True
    let ?s1 = "(if length (buf (send (heap s p))) < cap (send (heap s p))
          then s\<lparr>heap := (heap s)(p := (heap s p)\<lparr>send := (send (heap s p))\<lparr>buf := buf (send (heap s p)) @ [message]\<rparr>\<rparr>)\<rparr>
          else s\<lparr>heap := (heap s)(p := (heap s p)\<lparr>send := (send (heap s p))\<lparr>closed := True\<rparr>\<rparr>),
                 hub_clients := removeAll p (hub_clients s)\<rparr>)"
    have open_p: "\<not> closed (send (heap s p))" using Cons.prems by simp
    have pn: "p \<notin> set ps" and d: "distinct ps" using Cons.prems by simp_all
    have hp: "heap ?s1 p = visited sel message (heap s p)"
      using True by (simp add: visited_def)
    have hq: "heap ?s1 q = heap s q" if "q \<noteq> p" for q using that by simp
    have cl: "hub_clients ?s1 = filter (\<lambda>q. \<not> (q = p \<and> evicted sel (heap s q))) (hub_clients s)"
      using True by (auto simp: evicted_def removeAll_filter_not_eq intro!: filter_cong)
    have op: "\<forall>q \<in> set ps. \<not> closed (send (heap ?s1 q))"
      using Cons.prems pn by auto
    have "range_clients sel message (p # ps) s = range_clients sel message ps ?s1"
      using True send_or_evict_result[OF open_p, of message] by simp
    also have "\<dots> = Inr (?s1\<lparr>heap := (\<lambda>q. if q \<in> set ps then visited sel message (heap ?s1 q) else heap ?s1 q),
            hub_clients := filter (\<lambda>q. \<not> (q \<in> set ps \<and> evicted sel (heap ?s1 q))) (hub_clients ?s1)\<rparr>)"
      using Cons.IH[OF d op] .
    also have "(\<lambda>q. if q \<in> set ps then visited sel message (heap ?s1 q) else heap ?s1 q)
             = (\<lambda>q. if q \<in> set (p # ps) then visited sel message (heap s q) else heap s q)"
      using pn hp hq by (auto simp: fun_eq_iff)
    also have "filter (\<lambda>q. \<not> (q \<in> set ps \<and> evicted sel (heap ?s1 q))) (hub_clients ?s1)
             = filter (\<lambda>q. \<not> (q \<in> set (p # ps) \<and> evicted sel (heap s q))) (hub_clients s)"
      unfolding cl filter_filter using pn hq by (intro filter_cong) auto
    finally show ?thesis by (simp cong: if_cong)
  qed
qed

lemma broadcast_result:
  assumes "hub_inv s"
  shows "range_clients sel message (hub_clients s) s =
     Inr (s\<lparr>heap := (\<lambda>p. if p \<in> set (hub_clients s) then visited sel message (heap s p) else heap s p),
            hub_clients := filter (\<lambda>p. \<not> evicted sel (heap s p)) (hub_clients s)\<rparr>)"
proof -
  have "filter (\<lambda>p. \<not> (p \<in> set (hub_clients s) \<and> evicted sel (heap s p))) (hub_clients s)
      = filter (\<lambda>p. \<not> evicted sel (heap s p)) (hub_clients s)"
    by (intro filter_cong) auto
  with range_clients_result[of "hub_clients s" s sel message] assms show ?thesis
    by (simp add: hub_inv_def)
qed

lemma broadcast_inv:
  assumes "hub_inv s"
  shows "hub_inv (s\<lparr>heap := (\<lambda>p. if p \<in> set (hub_clients s) then visited sel message (heap s p) else heap s p),
            hub_clients := filter (\<lambda>p. \<not> evicted sel (heap s p)) (hub_clients s)\<rparr>)"
  using assms by (auto simp: hub_inv_def visited_def evicted_def)

lemma Register_inv:
  assumes "hub_inv s" "\<not> closed (send (heap s p))"
  shows "\<exists>s'. Run_step (Register p) s = Inr s' \<and> hub_inv s' \<and> heap s' = heap s
           \<and> set (hub_clients s') = insert p (set (hub_clients s))"
  using assms by (auto simp: hub_inv_def)

lemma HandleWebSocket_inv:
  assumes "hub_inv s"
  shows "\<exists>s'. HandleWebSocket p user s = Inr s' \<and> hub_inv s'"
  using assms by (cases user) (auto simp: hub_inv_def HandleWebSocket_def NewClient_def)

lemma Unregister_inv:
  assumes "hub_inv s"
  shows "\<exists>s'. Run_step (Unregister p) s = Inr s' \<and> hub_inv s' \<and> p \<notin> set (hub_clients s')
           \<and> set (hub_clients s') = set (hub_clients s) - {p}
           \<and> (\<forall>q. q \<noteq> p \<longrightarrow> heap s' q = heap s q)
           \<and> conn (heap s' p) = conn (heap s p)"
  using assms by (auto simp: hub_inv_def distinct_removeAll)

lemma joined_registered: "set (joined s k) \<subseteq> set (hub_clients s)"
  by (auto simp: joined_def)

lemma BroadcastToConversation_result:
  assumes "hub_inv s"
  shows "\<exists>s'. BroadcastToConversation convID message s = Inr s' \<and> hub_inv s'
     \<and> set (hub_clients s') \<subseteq> set (hub_clients s)
     \<and> (\<forall>q. q \<notin> set (joined s convID) \<longrightarrow> heap s' q = heap s q \<and> (q \<in> set (hub_clients s') \<longleftrightarrow> q \<in> set (hub_clients s)))
     \<and> (\<forall>q \<in> set (joined s convID).
           if length (buf (send (heap s q))) < cap (send (heap s q))
           then heap s' q = (heap s q)\<lparr>send := (send (heap s q))\<lparr>buf := buf (send (heap s q)) @ [message]\<rparr>\<rparr>
                \<and> q \<in> set (hub_clients s')
           else heap s' q = (heap s q)\<lparr>send := (send (heap s q))\<lparr>closed := True\<rparr>\<rparr>
                \<and> q \<notin> set (hub_clients s'))"
  unfolding BroadcastToConversation_def broadcast_result[OF assms]
  using broadcast_inv[OF assms, of "\<lambda>c. conversationID c = convID" message]
  by (auto simp: joined_def visited_def evicted_def)

lemma readPump_deferred_result:
  assumes "hub_inv s"
  shows "\<exists>s'. readPump_deferred c s = Inr s'
            \<and> c \<notin> set (hub_clients s') \<and> conn_closed (conn (heap s' c))
            \<and> set (hub_clients s') = set (hub_clients s) - {c}
            \<and> (\<forall>q. q \<noteq> c \<longrightarrow> heap s' q = heap s q)
            \<and> hub_inv s'"
proof -
  from Unregister_inv[OF assms, of c] obtain s1 where
    u: "Run_step (Unregister c) s = Inr s1" and i: "hub_inv s1" and n: "c \<notin> set (hub_clients s1)"
    and e: "set (hub_clients s1) = set (hub_clients s) - {c}"
    and f: "\<forall>q. q \<noteq> c \<longrightarrow> heap s1 q = heap s q"
    by blast
  let ?s' = "s1\<lparr>heap := (heap s1)(c := (heap s1 c)\<lparr>conn := (conn (heap s1 c))\<lparr>conn_closed := True\<rparr>\<rparr>)\<rparr>"
  have r: "readPump_deferred c s = Inr ?s'"
    by (simp add: readPump_deferred_def u del: Run_step.simps)
  have i': "hub_inv ?s'" using i n by (auto simp: hub_inv_def)
  show ?thesis
    using r i' n e f by (intro exI[of _ ?s']) simp
qed

lemma typing_frame_inv:
  assumes "hub_inv s"
  shows "\<exists>s'. typing_frame impl c m b s = Inr s' \<and> hub_inv s'"
proof (cases "m ''conversation_id''")
  case None
  then show ?thesis using assms by (simp add: typing_frame_def)
next
  case (Some v)
  show ?thesis
  proof (cases v)
    case (JNumber x)
    let ?f = "Marshal_TypingMessage
               \<lparr>Typing_Type = ''typing'', Typing_ConversationID = uint_of_float64 impl x,
                Typing_UserID = userID (heap s c), IsTyping = b\<rparr>"
    have e: "typing_frame impl c m b s = BroadcastToConversation (uint_of_float64 impl x) ?f s"
      using Some JNumber by (simp add: typing_frame_def)
    from BroadcastToConversation_result[OF assms, of "uint_of_float64 impl x" ?f]
    obtain s' where "BroadcastToConversation (uint_of_float64 impl x) ?f s = Inr s'" "hub_inv s'"
      by blast
    then show ?thesis unfolding e by blast
  qed (use Some assms in \<open>simp_all add: typing_frame_def\<close>)
qed

lemma handle_message_inv:
  assumes "hub_inv s"
  shows "\<exists>s'. handle_message impl c m s = Inr s' \<and> hub_inv s'"
proof (cases "m ''type''")
  case None
  then show ?thesis using assms by (simp add: handle_message_def)
next
  case (Some v)
  show ?thesis
  proof (cases v)
    case (JString t)
    have j: "hub_inv (s\<lparr>heap := (heap s)(c := (heap s c)\<lparr>conversationID := n\<rparr>)\<rparr>)" for n
      using assms by (auto simp: hub_inv_def)
    have join: "\<exists>s'. (case m ''conversation_id'' of
               Some (JNumber convID) \<Rightarrow>
                 Inr (s\<lparr>heap := (heap s)(c := (heap s c)\<lparr>conversationID := uint_of_float64 impl convID\<rparr>)\<rparr>)
             | _ \<Rightarrow> Inr s) = Inr s' \<and> hub_inv s'"
      using assms j by (simp split: option.splits json.splits)
    consider "t = ''join_conversation''" | "t = ''typing''" | "t = ''stop_typing''"
      | "t \<noteq> ''join_conversation''" "t \<noteq> ''typing''" "t \<noteq> ''stop_typing''"
      by blast
    then show ?thesis
    proof cases
      case 1
      then show ?thesis using join Some JString by (simp add: handle_message_def)
    next
      case 2
      then show ?thesis using typing_frame_inv[OF assms, of impl c m True] Some JString
        by (simp add: handle_message_def)
    next
      case 3
      then show ?thesis using typing_frame_inv[OF assms, of impl c m False] Some JString
        by (simp add: handle_message_def)
    next
      case 4
      then show ?thesis using assms Some JString by (simp add: handle_message_def)
    qed
  qed (use Some assms in \<open>simp_all add: handle_message_def\<close>)
qed

lemma readPump_inv:
  assumes "hub_inv s"
  shows "\<exists>s'. readPump impl c frames s = Inr s' \<and> hub_inv s'"
  using assms
proof (induction frames arbitrary: s)
  case Nil
  then show ?case by simp
next
  case (Cons f frames)
  show ?case
  proof (cases f)
    case ReadError
    from readPump_deferred_result[OF Cons.prems, of c] show ?thesis
      unfolding ReadError readPump.simps by blast
  next
    case Undecodable
    then show ?thesis using Cons by simp
  next
    case (Decoded m)
    from handle_message_inv[OF Cons.prems, of impl c m] obtain s1 where
      "handle_message impl c m s = Inr s1" "hub_inv s1" by blast
    then show ?thesis using Cons.IH[of s1] Decoded by simp
  qed
qed

lemma writePump_inv:
  assumes "hub_inv s"
  shows "hub_inv (writePump c s)"
  using assms
proof (induction c s rule: writePump.induct)
  case (1 c s)
  show ?case
  proof (cases "buf (send (heap s c)) = []")
    case True
    then show ?thesis using "1.prems"
      by (auto simp: writePump.simps[of c s] hub_inv_def Let_def)
  next
    case False
    show ?thesis
    proof (cases "conn_closed (conn (heap s c))")
      case True
      then show ?thesis using False "1.prems"
        by (auto simp: writePump.simps[of c s] hub_inv_def Let_def)
    next
      case nc: False
      let ?s1 = "s\<lparr>heap := (heap s)(c := (heap s c)\<lparr>send := (send (heap s c))\<lparr>buf := tl (buf (send (heap s c)))\<rparr>,
                     conn := (conn (heap s c))\<lparr>written := written (conn (heap s c)) @ [TextMessage (hd (buf (send (heap s c))))]\<rparr>\<rparr>)\<rparr>"
      have w: "writePump c s = writePump c ?s1"
        using False nc by (simp add: writePump.simps[of c s] Let_def)
      have "hub_inv ?s1" using "1.prems" by (auto simp: hub_inv_def)
      then have "hub_inv (writePump c ?s1)"
        using False nc by (intro "1.IH") auto
      then show ?thesis unfolding w .
    qed
  qed
qed

lemma apply_op_inv:
  assumes "hub_inv s"
  shows "\<exists>s'. apply_op impl op s = Inr s' \<and> hub_inv s'"
proof (cases op)
  case (Connect p user)
  then show ?thesis using HandleWebSocket_inv[OF assms] by simp
next
  case (Disconnect p)
  from Unregister_inv[OF assms, of p] obtain s' where
    "Run_step (Unregister p) s = Inr s'" "hub_inv s'" by blast
  then show ?thesis unfolding Disconnect apply_op.simps by blast
next
  case (BroadcastAll message)
  then show ?thesis using broadcast_result[OF assms] broadcast_inv[OF assms] by simp
next
  case (ToConversation convID message)
  then show ?thesis
    using broadcast_result[OF assms] broadcast_inv[OF assms]
    by (simp add: BroadcastToConversation_def)
next
  case (ToUser uid message)
  then show ?thesis
    using broadcast_result[OF assms] broadcast_inv[OF assms] by (simp add: BroadcastToUser_def)
next
  case (Reads p frames)
  then show ?thesis using readPump_inv[OF assms] by simp
next
  case (Writes p)
  then show ?thesis using writePump_inv[OF assms] by simp
qed

lemma run_ops_inv:
  assumes "hub_inv s"
  shows "\<exists>s'. run_ops impl ops s = Inr s' \<and> hub_inv s'"
  using assms
proof (induction ops arbitrary: s)
  case Nil
  then show ?case by simp
next
  case (Cons op ops)
  from apply_op_inv[OF Cons.prems, of impl op] obtain s1 where
    "apply_op impl op s = Inr s1" "hub_inv s1" by blast
  then show ?case using Cons.IH[of s1] by simp
qed

lemma unregistered_untouched:
  assumes "hub_inv s" and "p \<notin> set (hub_clients s)"
  shows "\<exists>s'. BroadcastToConversation k message s = Inr s'
           \<and> heap s' p = heap s p \<and> p \<notin> set (hub_clients s')"
proof -
  from BroadcastToConversation_result[OF assms(1), of k message] obtain s' where
    b: "BroadcastToConversation k message s = Inr s'"
    and sub: "set (hub_clients s') \<subseteq> set (hub_clients s)"
    and fr: "\<forall>q. q \<notin> set (joined s k) \<longrightarrow> heap s' q = heap s q \<and> (q \<in> set (hub_clients s') \<longleftrightarrow> q \<in> set (hub_clients s))"
    by blast
  have "p \<notin> set (joined s k)" using assms(2) joined_registered by blast
  with fr have "heap s' p = heap s p" by blast
  moreover have "p \<notin> set (hub_clients s')" using sub assms(2) by blast
  ultimately show ?thesis using b by blast
qed

lemma eviction:
  assumes "hub_inv s"
  shows "\<exists>s'. range_clients sel message (hub_clients s) s = Inr s' \<and> hub_inv s'
           \<and> (p \<in> set (hub_clients s) \<and> sel (heap s p)
                \<and> \<not> length (buf (send (heap s p))) < cap (send (heap s p))
               \<longrightarrow> p \<notin> set (hub_clients s') \<and> (\<forall>k. p \<notin> set (joined s' k))
                  \<and> closed (send (heap s' p))
                  \<and> (\<forall>k message'. \<exists>s''. BroadcastToConversation k message' s' = Inr s''
                         \<and> heap s'' p = heap s' p \<and> p \<notin> set (hub_clients s'')))"
proof -
  let ?s' = "s\<lparr>heap := (\<lambda>q. if q \<in> set (hub_clients s) then visited sel message (heap s q) else heap s q),
            hub_clients := filter (\<lambda>q. \<not> evicted sel (heap s q)) (hub_clients s)\<rparr>"
  have r: "range_clients sel message (hub_clients s) s = Inr ?s'"
    by (rule broadcast_result[OF assms])
  have i: "hub_inv ?s'" by (rule broadcast_inv[OF assms])
  have e: "p \<notin> set (hub_clients ?s') \<and> (\<forall>k. p \<notin> set (joined ?s' k))
                  \<and> closed (send (heap ?s' p))
                  \<and> (\<forall>k message'. \<exists>s''. BroadcastToConversation k message' ?s' = Inr s''
                         \<and> heap s'' p = heap ?s' p \<and> p \<notin> set (hub_clients s''))"
    if "p \<in> set (hub_clients s)" "sel (heap s p)"
      "\<not> length (buf (send (heap s p))) < cap (send (heap s p))"
  proof -
    have a: "p \<notin> set (hub_clients ?s')" using that by (simp add: evicted_def)
    have c: "closed (send (heap ?s' p))" using that by (simp add: visited_def)
    have j: "\<forall>k. p \<notin> set (joined ?s' k)" using a joined_registered by blast
    have "\<forall>k message'. \<exists>s''. BroadcastToConversation k message' ?s' = Inr s''
                         \<and> heap s'' p = heap ?s' p \<and> p \<notin> set (hub_clients s'')"
      using unregistered_untouched[OF i a] by blast
    with a c j show ?thesis by blast
  qed
  show ?thesis
    unfolding r using i e by blast
qed

text \<open>
  Claim C5. The registry's invariant holds of the new hub and is kept by every hub
  operation (register, the admission of a new client, unregister, the three broadcasts),
  none of which panics, and so along every sequence of operations from the new hub, the
  pumps included. The sessions a fan-out reaches are registered ones, and a broadcast to a
  conversation touches no other client. A client that a broadcast (to all, to its user or
  to its conversation) finds with a full queue is evicted: in that one step it leaves the
  registry, hence every conversation's fan-out, and its channel is closed. Every later
  broadcast to a conversation succeeds and leaves that client untouched.
\<close>

theorem registry_invariant:
  assumes "hub_inv s"
  shows "hub_inv (NewHub hp)
     \<and> (\<exists>s'. run_ops impl ops (NewHub hp) = Inr s' \<and> hub_inv s'
              \<and> (\<forall>k. set (joined s' k) \<subseteq> set (hub_clients s')))
     \<and> (\<forall>k. set (joined s k) \<subseteq> set (hub_clients s))
     \<and> (\<not> closed (send (heap s p)) \<longrightarrow> (\<exists>s'. Run_step (Register p) s = Inr s' \<and> hub_inv s'))
     \<and> (\<exists>s'. HandleWebSocket p user s = Inr s' \<and> hub_inv s')
     \<and> (\<exists>s'. Run_step (Unregister p) s = Inr s' \<and> hub_inv s' \<and> p \<notin> set (hub_clients s')
              \<and> (\<forall>k. p \<notin> set (joined s' k)))
     \<and> (\<exists>s'. Run_step (Broadcast message) s = Inr s' \<and> hub_inv s'
              \<and> (p \<in> set (hub_clients s)
                    \<and> \<not> length (buf (send (heap s p))) < cap (send (heap s p))
                   \<longrightarrow> p \<notin> set (hub_clients s') \<and> (\<forall>k. p \<notin> set (joined s' k))
                      \<and> closed (send (heap s' p))
                      \<and> (\<forall>k message'. \<exists>s''. BroadcastToConversation k message' s' = Inr s''
                             \<and> heap s'' p = heap s' p \<and> p \<notin> set (hub_clients s''))))
     \<and> (\<exists>s'. BroadcastToUser uid message s = Inr s' \<and> hub_inv s'
              \<and> (p \<in> set (hub_clients s) \<and> userID (heap s p) = uid
                    \<and> \<not> length (buf (send (heap s p))) < cap (send (heap s p))
                   \<longrightarrow> p \<notin> set (hub_clients s') \<and> (\<forall>k. p \<notin> set (joined s' k))
                      \<and> closed (send (heap s' p))
                      \<and> (\<forall>k message'. \<exists>s''. BroadcastToConversation k message' s' = Inr s''
                             \<and> heap s'' p = heap s' p \<and> p \<notin> set (hub_clients s''))))
     \<and> (\<exists>s'. BroadcastToConversation convID message s = Inr s' \<and> hub_inv s'
              \<and> (\<forall>q. q \<notin> set (joined s convID) \<longrightarrow> heap s' q = heap s q)
              \<and> (p \<in> set (hub_clients s) \<and> conversationID (heap s p) = convID
                    \<and> \<not> length (buf (send (heap s p))) < cap (send (heap s p))
                   \<longrightarrow> p \<notin> set (hub_clients s') \<and> (\<forall>k. p \<notin> set (joined s' k))
                      \<and> closed (send (heap s' p))
                      \<and> (\<forall>k message'. \<exists>s''. BroadcastToConversation k message' s' = Inr s''
                             \<and> heap s'' p = heap s' p \<and> p \<notin> set (hub_clients s''))))"
proof -
  have 0: "hub_inv (NewHub hp)" by (simp add: hub_inv_def NewHub_def)
  have 1: "\<forall>k. set (joined s k) \<subseteq> set (hub_clients s)" using joined_registered by blast
  have 7: "\<exists>s'. run_ops impl ops (NewHub hp) = Inr s' \<and> hub_inv s'
              \<and> (\<forall>k. set (joined s' k) \<subseteq> set (hub_clients s'))"
    using run_ops_inv[OF 0, of impl ops] joined_registered by blast
  have 2: "\<not> closed (send (heap s p)) \<longrightarrow> (\<exists>s'. Run_step (Register p) s = Inr s' \<and> hub_inv s')"
    using Register_inv[OF assms] by blast
  have 3: "\<exists>s'. HandleWebSocket p user s = Inr s' \<and> hub_inv s'"
    by (rule HandleWebSocket_inv[OF assms])
  have 4: "\<exists>s'. Run_step (Unregister p) s = Inr s' \<and> hub_inv s' \<and> p \<notin> set (hub_clients s')
              \<and> (\<forall>k. p \<notin> set (joined s' k))"
    using Unregister_inv[OF assms, of p] joined_registered by blast
  have 5: "\<exists>s'. Run_step (Broadcast message) s = Inr s' \<and> hub_inv s'
              \<and> (p \<in> set (hub_clients s)
                    \<and> \<not> length (buf (send (heap s p))) < cap (send (heap s p))
                   \<longrightarrow> p \<notin> set (hub_clients s') \<and> (\<forall>k. p \<notin> set (joined s' k))
                      \<and> closed (send (heap s' p))
                      \<and> (\<forall>k message'. \<exists>s''. BroadcastToConversation k message' s' = Inr s''
                             \<and> heap s'' p = heap s' p \<and> p \<notin> set (hub_clients s'')))"
    using eviction[OF assms, of "\<lambda>c. True" message p] by simp
  have 6: "\<exists>s'. BroadcastToUser uid message s = Inr s' \<and> hub_inv s'
              \<and> (p \<in> set (hub_clients s) \<and> userID (heap s p) = uid
                    \<and> \<not> length (buf (send (heap s p))) < cap (send (heap s p))
                   \<longrightarrow> p \<notin> set (hub_clients s') \<and> (\<forall>k. p \<notin> set (joined s' k))
                      \<and> closed (send (heap s' p))
                      \<and> (\<forall>k message'. \<exists>s''. BroadcastToConversation k message' s' = Inr s''
                             \<and> heap s'' p = heap s' p \<and> p \<notin> set (hub_clients s'')))"
    unfolding BroadcastToUser_def using eviction[OF assms, of "\<lambda>c. userID c = uid" message p] .
  obtain s' where b: "BroadcastToConversation convID message s = Inr s'" and i: "hub_inv s'"
    and ev: "p \<in> set (hub_clients s) \<and> conversationID (heap s p) = convID
                    \<and> \<not> length (buf (send (heap s p))) < cap (send (heap s p))
                   \<longrightarrow> p \<notin> set (hub_clients s') \<and> (\<forall>k. p \<notin> set (joined s' k))
                      \<and> closed (send (heap s' p))
                      \<and> (\<forall>k message'. \<exists>s''. BroadcastToConversation k message' s' = Inr s''
                             \<and> heap s'' p = heap s' p \<and> p \<notin> set (hub_clients s''))"
    using eviction[OF assms, of "\<lambda>c. conversationID c = convID" message p]
    unfolding BroadcastToConversation_def by blast
  have fr: "\<forall>q. q \<notin> set (joined s convID) \<longrightarrow> heap s' q = heap s q"
    using BroadcastToConversation_result[OF assms, of convID message] b by auto
  have 8: "\<exists>s'. BroadcastToConversation convID message s = Inr s' \<and> hub_inv s'
              \<and> (\<forall>q. q \<notin> set (joined s convID) \<longrightarrow> heap s' q = heap s q)
              \<and> (p \<in> set (hub_clients s) \<and> conversationID (heap s p) = convID
                    \<and> \<not> length (buf (send (heap s p))) < cap (send (heap s p))
                   \<longrightarrow> p \<notin> set (hub_clients s') \<and> (\<forall>k. p \<notin> set (joined s' k))
                      \<and> closed (send (heap s' p))
                      \<and> (\<forall>k message'. \<exists>s''. BroadcastToConversation k message' s' = Inr s''
                             \<and> heap s'' p = heap s' p \<and> p \<notin> set (hub_clients s'')))"
    using b i fr ev by (intro exI[of _ s']) simp
  from 0 7 1 2 3 4 5 6 8 show ?thesis by (intro conjI)
qed

section \<open>The pumps\<close>









section \<open>The match handler on the example stores\<close>

lemma after_first_like_eq:
  "LikeUser no_faults two_users 1 ''2'' = (StatusOK, after_first_like)"
  by (simp add: after_first_like_def example_defs)

lemma db_after_first_like:
  "db after_first_like = empty_db\<lparr>users :=
             [\<lparr>User_ID = 1, User_IsActive = True, User_DeletedAt = None\<rparr>,
              \<lparr>User_ID = 2, User_IsActive = True, User_DeletedAt = None\<rparr>],
          likes := [\<lparr>Like_ID = 1, LikerID = 1, LikedID = 2\<rparr>], likes_seq := 2\<rparr>"
  by (simp add: after_first_like_def example_defs)


theorem mutual_like_creates_match_witness:
  "LikeUser no_faults two_users 1 ''2'' = (StatusOK, after_first_like)
 \<and> fst (LikeUser no_faults after_first_like 2 ''1'') =
     StatusCreated 1 \<lparr>User_ID = 1, User_IsActive = True, User_DeletedAt = None\<rparr>
 \<and> matches (db after_first_like) = [] \<and> conversations (db after_first_like) = []
 \<and> matches (db after_mutual_like) =
     [\<lparr>Match_ID = 1, User1ID = 2, User2ID = 1, Match_IsActive = True, Match_DeletedAt = None\<rparr>]
 \<and> conversations (db after_mutual_like) =
     [\<lparr>Conversation_ID = 1, MatchID = 1, Conversation_IsActive = True, Conversation_DeletedAt = None\<rparr>]"
proof -
  have pa: "ParseUint ''1'' 32 = Some 1" and pb: "ParseUint ''2'' 32 = Some 2"
    by (simp_all add: ParseUint_def digit_val_def)
  have ab: "(1::nat) \<noteq> 2" by simp
  have ua: "First (\<lambda>u. User_ID u = 1 \<and> User_IsActive u \<and> User_DeletedAt u = None) (users (db two_users))
              = Some \<lparr>User_ID = 1, User_IsActive = True, User_DeletedAt = None\<rparr>"
    and ub: "First (\<lambda>u. User_ID u = 2 \<and> User_IsActive u \<and> User_DeletedAt u = None) (users (db two_users))
              = Some \<lparr>User_ID = 2, User_IsActive = True, User_DeletedAt = None\<rparr>"
    by (simp_all add: two_users_def empty_db_def First_def)
  have nl: "\<forall>l \<in> set (likes (db two_users)). \<not> (LikerID l = 1 \<and> LikedID l = 2) \<and> \<not> (LikerID l = 2 \<and> LikedID l = 1)"
    and nb: "\<forall>x \<in> set (blocked_users (db two_users)). \<not> (BlockerID x = 1 \<and> BlockedID x = 2) \<and> \<not> (BlockerID x = 2 \<and> BlockedID x = 1)"
    by (simp_all add: two_users_def empty_db_def)
  have ok: "\<not> no_faults CreateLike" "\<not> no_faults CreateMatch" "\<not> no_faults CreateConversation"
    by (simp_all add: no_faults_def)
  have first: "LikeUser no_faults two_users 1 ''2'' = (fst (LikeUser no_faults two_users 1 ''2''), after_first_like)"
    by (simp add: after_first_like_def)
  have second: "LikeUser no_faults after_first_like 2 ''1'' = (fst (LikeUser no_faults after_first_like 2 ''1''), after_mutual_like)"
    by (simp add: after_mutual_like_def)
  from mutual_like_creates_match[OF pa pb ab ua ub nl nb ok first second] first
  show ?thesis
    by (simp add: two_users_def empty_db_def)
qed

lemma parse_examples:
  "ParseUint ''1'' 32 = Some 1" "ParseUint ''2'' 32 = Some 2"
  by (simp_all add: ParseUint_def digit_val_def)

lemma no_faults_simps:
  "\<not> no_faults CreateLike" "\<not> no_faults CreateMatch" "\<not> no_faults CreateConversation"
  "\<not> no_faults CreateDislike" "\<not> no_faults SaveMatch" "\<not> no_faults SaveConversation"
  by (simp_all add: no_faults_def)

theorem dislike_keeps_like_witness:
  "fst (DislikeUser no_faults after_first_like 1 ''2'') = StatusOK
 \<and> likes (db after_dislike) = [\<lparr>Like_ID = 1, LikerID = 1, LikedID = 2\<rparr>]
 \<and> fst (LikeUser no_faults after_dislike 2 ''1'') =
      StatusCreated 1 \<lparr>User_ID = 1, User_IsActive = True, User_DeletedAt = None\<rparr>
 \<and> matches (db (snd (LikeUser no_faults after_dislike 2 ''1''))) =
      [\<lparr>Match_ID = 1, User1ID = 2, User2ID = 1, Match_IsActive = True, Match_DeletedAt = None\<rparr>]"
proof -
  have ua: "First (\<lambda>u. User_ID u = 1 \<and> User_IsActive u \<and> User_DeletedAt u = None) (users (db two_users))
              = Some \<lparr>User_ID = 1, User_IsActive = True, User_DeletedAt = None\<rparr>"
    by (simp add: two_users_def empty_db_def First_def)
  have nl: "\<forall>l \<in> set (likes (db two_users)). \<not> (LikerID l = 2 \<and> LikedID l = 1)"
    and nb: "\<forall>x \<in> set (blocked_users (db two_users)). \<not> (BlockerID x = 2 \<and> BlockedID x = 1)"
    by (simp_all add: two_users_def empty_db_def)
  have ab: "(1::nat) \<noteq> 2" by simp
  have d: "DislikeUser no_faults after_first_like 1 ''2'' =
             (fst (DislikeUser no_faults after_first_like 1 ''2''), after_dislike)"
    by (simp add: after_dislike_def)
  have l3: "LikeUser no_faults after_dislike 2 ''1'' =
             (fst (LikeUser no_faults after_dislike 2 ''1''), snd (LikeUser no_faults after_dislike 2 ''1''))"
    by simp
  have dr: "fst (DislikeUser no_faults after_first_like 1 ''2'') = StatusOK"
    by (simp add: DislikeUser_def parse_examples First_def db_after_first_like empty_db_def
          Create_Dislike_def no_faults_def Let_def)
  have ms: "matches_seq (db after_dislike) = 1" "matches (db after_dislike) = []"
    by (simp_all add: after_dislike_def DislikeUser_def parse_examples First_def db_after_first_like
          empty_db_def Create_Dislike_def no_faults_def Let_def)
  have "likes (db after_dislike) = likes (db after_first_like)
        \<and> (\<exists>l \<in> set (likes (db after_dislike)). LikerID l = 1 \<and> LikedID l = 2)
        \<and> fst (LikeUser no_faults after_dislike 2 ''1'') =
            StatusCreated (matches_seq (db after_dislike)) \<lparr>User_ID = 1, User_IsActive = True, User_DeletedAt = None\<rparr>
        \<and> matches (db (snd (LikeUser no_faults after_dislike 2 ''1''))) = matches (db after_dislike) @
            [\<lparr>Match_ID = matches_seq (db after_dislike), User1ID = 2, User2ID = 1,
              Match_IsActive = True, Match_DeletedAt = None\<rparr>]"
    using dislike_keeps_like[where pa = "''1''" and a = 1 and pb = "''2''" and b = 2 and h = two_users
        and ua = "\<lparr>User_ID = 1, User_IsActive = True, User_DeletedAt = None\<rparr>"
        and ?fails1.0 = no_faults and ?h1.0 = after_first_like and ?fails2.0 = no_faults
        and ?r2.0 = "fst (DislikeUser no_faults after_first_like 1 ''2'')" and ?h2.0 = after_dislike
        and fails = no_faults and ?r3.0 = "fst (LikeUser no_faults after_dislike 2 ''1'')"
        and ?h3.0 = "snd (LikeUser no_faults after_dislike 2 ''1'')"]
      parse_examples ua nl nb after_first_like_eq d l3 no_faults_simps(1,2,3) ab
    by blast
  then show ?thesis using dr ms by (simp add: db_after_first_like empty_db_def)
qed

theorem like_forbidden_iff_witness:
  "LikeUser no_faults blocked_pair 1 ''2'' = (StatusForbidden, blocked_pair)"
proof -
  have c: "LikeUser no_faults blocked_pair 1 ''2'' =
             (fst (LikeUser no_faults blocked_pair 1 ''2''), snd (LikeUser no_faults blocked_pair 1 ''2''))"
    by simp
  have u: "\<exists>u \<in> set (users (db blocked_pair)). User_ID u = 2 \<and> User_IsActive u \<and> User_DeletedAt u = None"
    and l: "\<forall>l \<in> set (likes (db blocked_pair)). \<not> (LikerID l = 1 \<and> LikedID l = 2)"
    and b: "\<exists>b \<in> set (blocked_users (db blocked_pair)). BlockerID b = 1 \<and> BlockedID b = 2"
    by (simp_all add: blocked_pair_def two_users_def empty_db_def)
  from like_forbidden_iff[OF parse_examples(2) c] u l b
  have "fst (LikeUser no_faults blocked_pair 1 ''2'') = StatusForbidden"
    and "snd (LikeUser no_faults blocked_pair 1 ''2'') = blocked_pair"
    by blast+
  then show ?thesis by (metis prod.collapse)
qed

theorem like_forbidden_counterexample:
  "blocked_users (db blocked_after_like) = [\<lparr>BlockedUser_ID = 1, BlockerID = 1, BlockedID = 2\<rparr>]
 \<and> LikeUser no_faults blocked_after_like 1 ''2'' = (StatusConflict, blocked_after_like)
 \<and> blocked_users (db blocked_inactive) = [\<lparr>BlockedUser_ID = 1, BlockerID = 1, BlockedID = 2\<rparr>]
 \<and> LikeUser no_faults blocked_inactive 1 ''2'' = (StatusNotFound, blocked_inactive)"
  by (simp add: blocked_after_like_def blocked_inactive_def blocked_pair_def db_after_first_like
        two_users_def empty_db_def LikeUser_def parse_examples First_def)



section \<open>The hub on the example states\<close>


lemma hub_inv_examples:
  "hub_inv one_client" "hub_inv one_client_joined" "hub_inv full_queue_joined"
  by (simp_all add: hub_inv_def one_client_def one_client_joined_def full_queue_joined_def
        full_queue_def NewClient_def)


lemma broadcast_full_queue:
  "BroadcastToConversation 7 ''hello'' full_queue_joined = Inr full_queue_evicted"
  by (simp add: BroadcastToConversation_def send_or_evict_def Let_def full_queue_joined_def
        full_queue_def full_queue_evicted_def NewClient_def)






theorem registry_invariant_witness:
  "hub_inv full_queue_joined
 \<and> BroadcastToConversation 7 ''hello'' full_queue_joined = Inr full_queue_evicted
 \<and> hub_inv full_queue_evicted
 \<and> 1 \<notin> set (hub_clients full_queue_evicted)
 \<and> closed (send (heap full_queue_evicted 1))
 \<and> (\<exists>s''. BroadcastToConversation 7 ''again'' full_queue_evicted = Inr s''
           \<and> heap s'' 1 = heap full_queue_evicted 1 \<and> 1 \<notin> set (hub_clients s''))"
proof -
  have j: "1 \<in> set (hub_clients full_queue_joined)" "conversationID (heap full_queue_joined 1) = 7"
    by (simp_all add: full_queue_joined_def full_queue_def)
  have f: "\<not> length (buf (send (heap full_queue_joined 1))) < cap (send (heap full_queue_joined 1))"
    by (simp add: full_queue_joined_def full_queue_def NewClient_def)
  from registry_invariant[OF hub_inv_examples(3), where p = 1 and convID = 7 and message = "''hello''"
      and hp = "heap one_client" and impl = saturating and ops = "[]" and user = None and uid = 5]
  obtain s' where b: "BroadcastToConversation 7 ''hello'' full_queue_joined = Inr s'" and i: "hub_inv s'"
    and e: "1 \<in> set (hub_clients full_queue_joined) \<and> conversationID (heap full_queue_joined 1) = 7
              \<and> \<not> length (buf (send (heap full_queue_joined 1))) < cap (send (heap full_queue_joined 1))
            \<longrightarrow> 1 \<notin> set (hub_clients s') \<and> (\<forall>k. 1 \<notin> set (joined s' k))
                \<and> closed (send (heap s' 1))
                \<and> (\<forall>k message'. \<exists>s''. BroadcastToConversation k message' s' = Inr s''
                        \<and> heap s'' 1 = heap s' 1 \<and> 1 \<notin> set (hub_clients s''))"
    by blast
  from b have s': "s' = full_queue_evicted" by (simp add: broadcast_full_queue)
  from e j f have "1 \<notin> set (hub_clients s')" "closed (send (heap s' 1))"
    "\<exists>s''. BroadcastToConversation 7 ''again'' s' = Inr s''
           \<and> heap s'' 1 = heap s' 1 \<and> 1 \<notin> set (hub_clients s'')"
    by blast+
  with i show ?thesis unfolding s' using hub_inv_examples(3) broadcast_full_queue by blast
qed

end
